theory Spec2Isabelle
  imports Main "HOL-Library.Word"
begin

unbundle bit_operations_syntax

section \<open>Data model\<close>

text \<open>
  The development embeds two source files of the netlink client library:
  \<^verbatim>\<open>pyroute2/netlink/client.py\<close> (class \<^verbatim>\<open>Netlink\<close>: reassembly thread, parser
  and callback chain, listener registry, sequence allocator, request dispatcher, control
  plane) and \<^verbatim>\<open>pyroute2/netlink/iproute.py\<close> (the methods \<^verbatim>\<open>IPRoute.link\<close> and
  \<^verbatim>\<open>IPRoute.addr\<close>).

  Python exceptions are values of \<open>exn\<close>. A method that mutates the object and may raise
  returns \<open>(exn \<times> state) + (value \<times> state)\<close>: \<open>Inl\<close> carries the exception together with
  the state at the moment of the raise. A method that may block forever (a blocking queue
  operation that nobody unblocks) has that result wrapped in \<open>option\<close>, \<open>None\<close> meaning
  that the call never returns.
\<close>

type_synonym byte = "8 word"

datatype exn = AttributeError | KeyError | TypeError | IndexError | AssertionError
  | StructError | QueueFull | QueueEmpty | NetlinkError int | OtherError string

text \<open>Python values that travel through keyword arguments and message attributes.\<close>

datatype pyval = PNone | PInt int | PStr string | PDict "(string \<times> pyval) list"

text \<open>
  The header of a parsed inner message, \<^verbatim>\<open>msg['header']\<close>. The key \<^verbatim>\<open>error\<close> may be
  missing or hold an exception object; \<^verbatim>\<open>msg['header'].get('error', None)\<close> is the field
  \<open>error\<close>.
\<close>

record nlhdr =
  type :: int
  flags :: int
  sequence_number :: int
  pid :: int
  error :: "exn option"

text \<open>
  A parsed message (an \<^verbatim>\<open>nlmsg\<close> dictionary). \<open>header\<close> is \<open>None\<close> once
  \<^verbatim>\<open>del msg['header']\<close> has run; \<open>cmd\<close> is the \<^verbatim>\<open>cmd\<close> key of a management message;
  \<open>raw\<close> is \<^verbatim>\<open>msg.raw\<close>.
\<close>

record msg =
  header :: "nlhdr option"
  cmd :: "int option"
  attrs :: "(string \<times> pyval) list"
  raw :: "byte list option"

text \<open>
  A \<^verbatim>\<open>Queue.Queue\<close> of the Python standard library: its content in FIFO order (an item
  is a message or Python's \<^verbatim>\<open>None\<close>, the terminator), its \<^verbatim>\<open>maxsize\<close> (0 is unbounded)
  and whether the object carries the attribute \<^verbatim>\<open>persist\<close>.
\<close>

record queue =
  items :: "msg option list"
  maxsize :: nat
  persist :: bool

text \<open>What the reassembler reads from a decoded envelope: the sequence number of its
  header and the bytes of its \<^verbatim>\<open>IPR_ATTR_CDATA\<close> attribute (\<open>None\<close> when
  \<^verbatim>\<open>get_attr\<close> finds none).\<close>

record envmsg =
  env_sequence_number :: int
  env_cdata :: "byte list option"

text \<open>An envelope written to the bridge by \<^verbatim>\<open>nlm_push\<close>, before encoding.\<close>

record sent =
  out_sequence_number :: int
  out_pid :: int
  out_type :: int
  out_flags :: "int option"
  out_dst :: int
  out_src :: int
  out_cdata :: msg

text \<open>
  A callback entry is the tuple \<^verbatim>\<open>(predicate, callback, args)\<close> of
  \<^verbatim>\<open>register_callback\<close>. Predicates and callbacks are arbitrary Python callables on a
  user state \<open>'w\<close>: a call ends by returning (a truth value for a predicate) or by
  raising, and in either case it leaves a new user state, so what a callable has done
  before it raises stays done.
\<close>

type_synonym 'w callback =
  "(msg \<Rightarrow> 'w \<Rightarrow> (exn + bool) \<times> 'w) \<times> (msg \<Rightarrow> pyval list \<Rightarrow> 'w \<Rightarrow> (exn + unit) \<times> 'w)
     \<times> pyval list"

text \<open>
  The attributes of a \<^verbatim>\<open>Netlink\<close> object (\<^verbatim>\<open>__init__\<close>, client.py lines 60-88).
  The private attributes \<^verbatim>\<open>_nonce\<close>, \<^verbatim>\<open>_mirror\<close> and \<^verbatim>\<open>_stop_event\<close> carry the
  prefix \<open>p_\<close>. Three fields make effects observable: \<open>bridge\<close> lists the envelopes
  sent with \<^verbatim>\<open>self.bridge.send\<close>, \<open>emitted\<close> lists the byte slices the reassembler has
  handed to \<^verbatim>\<open>envmsg\<close>, and \<open>world\<close> is the user state the callbacks act on.
\<close>

record 'w netlink =
  default_realm :: int
  listeners :: "int \<rightharpoonup> queue"
  callbacks :: "'w callback list"
  debug :: bool
  cid :: pyval
  p_nonce :: int
  p_mirror :: bool
  p_stop_event :: bool
  bridge :: "sent list"
  emitted :: "byte list list"
  world :: 'w

text \<open>
  The parts of the package that the two source files import and that are not part of
  them, taken as parameters: the protocol constants of \<^verbatim>\<open>pyroute2.netlink\<close>, the process
  id, the decoders \<^verbatim>\<open>envmsg(data).decode()\<close>, \<^verbatim>\<open>mgmtmsg(buf).decode()\<close> and
  \<^verbatim>\<open>marshal.parse\<close>, and the attribute lookup \<^verbatim>\<open>get_attr\<close>.
\<close>

record collab =
  NLMSG_DONE :: int
  NLM_F_MULTI :: int
  NLMSG_CONTROL :: int
  NLMSG_TRANSPORT :: int
  IPRCMD_ACK :: int
  IPRCMD_SUBSCRIBE :: int
  IPRCMD_UNSUBSCRIBE :: int
  getpid :: int
  envmsg_decode :: "byte list \<Rightarrow> exn + envmsg"
  mgmtmsg_decode :: "byte list \<Rightarrow> exn + msg"
  marshal_parse :: "byte list \<Rightarrow> exn + msg list"
  get_attr :: "msg \<Rightarrow> string \<Rightarrow> pyval"

type_synonym ('a, 'w) result = "(exn \<times> 'w netlink) + ('a \<times> 'w netlink)"

text \<open>\<^verbatim>\<open>Netlink.__init__\<close> with \<^verbatim>\<open>do_connect=False\<close>: the attribute values before any
  call.\<close>

definition init :: "bool \<Rightarrow> 'w \<Rightarrow> 'w netlink" where
  "init dbg w =
     \<lparr>default_realm = 0, listeners = Map.empty, callbacks = [], debug = dbg, cid = PNone,
      p_nonce = 0, p_mirror = False, p_stop_event = False, bridge = [], emitted = [],
      world = w\<rparr>"

section \<open>Queues\<close>

text \<open>\<^verbatim>\<open>_QUEUE_MAXSIZE = 4096\<close> (client.py line 31).\<close>

definition QUEUE_MAXSIZE :: nat where
  "QUEUE_MAXSIZE = 4096"

text \<open>\<^verbatim>\<open>Queue.Queue(maxsize=n)\<close>: a fresh queue, without the attribute \<^verbatim>\<open>persist\<close>.\<close>

definition Queue :: "nat \<Rightarrow> queue" where
  "Queue n = \<lparr>items = [], maxsize = n, persist = False\<rparr>"

definition full :: "queue \<Rightarrow> bool" where
  "full q = (0 < maxsize q \<and> maxsize q \<le> length (items q))"

text \<open>
  \<^verbatim>\<open>put_nowait\<close> raises \<^verbatim>\<open>Queue.Full\<close> on a full queue; the blocking \<^verbatim>\<open>put\<close>
  waits for a free slot, for ever when no other thread takes an item (\<open>None\<close>). A
  queue is full when it is bounded and holds \<^verbatim>\<open>maxsize\<close> items or more (the test of
  Python 3; Python 2 tests equality, which is the same on every queue filled through
  \<^verbatim>\<open>put\<close>).
\<close>

definition put_nowait :: "queue \<Rightarrow> msg option \<Rightarrow> exn + queue" where
  "put_nowait q x = (if full q then Inl QueueFull else Inr (q\<lparr>items := items q @ [x]\<rparr>))"

definition put :: "queue \<Rightarrow> msg option \<Rightarrow> queue option" where
  "put q x = (if full q then None else Some (q\<lparr>items := items q @ [x]\<rparr>))"

section \<open>Listener registry: \<^verbatim>\<open>_remove_queue\<close> and \<^verbatim>\<open>get\<close>\<close>

text \<open>
  The loop of \<^verbatim>\<open>_remove_queue\<close> (client.py lines 365-368): the messages left in the
  detached queue are put, one by one and blocking, into queue 0 when the registry has
  one, and dropped otherwise.
\<close>

fun reroute :: "msg option list \<Rightarrow> (int \<rightharpoonup> queue) \<Rightarrow> (int \<rightharpoonup> queue) option" where
  "reroute [] ls = Some ls"
| "reroute (x # xs) ls =
     (case ls 0 of
        None \<Rightarrow> reroute xs ls
      | Some q0 \<Rightarrow> (case put q0 x of None \<Rightarrow> None | Some q0' \<Rightarrow> reroute xs (ls(0 \<mapsto> q0'))))"

text \<open>\<^verbatim>\<open>_remove_queue(key)\<close> (client.py lines 354-368): \<^verbatim>\<open>self.listeners[key]\<close> raises
  \<^verbatim>\<open>KeyError\<close> on a missing key; the default queue 0 is left alone.\<close>

definition remove_queue :: "'w netlink \<Rightarrow> int \<Rightarrow> ((exn \<times> 'w netlink) + 'w netlink) option" where
  "remove_queue st key =
     (case listeners st key of
        None \<Rightarrow> Some (Inl (KeyError, st))
      | Some queue \<Rightarrow>
          if key \<noteq> 0 then
            (case reroute (items queue) ((listeners st)(key := None)) of
               None \<Rightarrow> None
             | Some ls \<Rightarrow> Some (Inr (st\<lparr>listeners := ls\<rparr>)))
          else Some (Inr st))"

text \<open>The pattern \<^verbatim>\<open>self._remove_queue(key); raise e\<close> of \<^verbatim>\<open>get\<close>.\<close>

definition raise_after_remove :: "'w netlink \<Rightarrow> int \<Rightarrow> exn \<Rightarrow> ('a, 'w) result option" where
  "raise_after_remove st key e =
     (case remove_queue st key of
        None \<Rightarrow> None
      | Some (Inl ex) \<Rightarrow> Some (Inl ex)
      | Some (Inr st') \<Rightarrow> Some (Inl (e, st')))"

text \<open>
  The \<^verbatim>\<open>while True\<close> loop of \<^verbatim>\<open>get\<close> (client.py lines 379-403). \<open>queue\<close> is the
  local variable bound before the loop; it is the object stored under \<open>key\<close>, so every
  pop is written back to the registry. \<^verbatim>\<open>queue.get(block=True, timeout=timeout)\<close> pops
  the oldest item; on an empty queue it raises \<^verbatim>\<open>Queue.Empty\<close> after the timeout, no
  other thread being modelled. For key 0 and for a persistent queue the loop then
  continues: with nothing arriving it never ends.
\<close>

partial_function (option) get_loop ::
  "collab \<Rightarrow> 'w netlink \<Rightarrow> int \<Rightarrow> bool \<Rightarrow> queue \<Rightarrow> msg list \<Rightarrow> (msg list, 'w) result option"
where
  "get_loop K st key raw_flag queue result =
     (case items queue of
        [] \<Rightarrow>
          if key = 0 \<or> persist queue then get_loop K st key raw_flag queue result
          else raise_after_remove st key QueueEmpty
      | x # rest \<Rightarrow>
          let queue' = queue\<lparr>items := rest\<rparr>;
              st' = st\<lparr>listeners := (listeners st)(key \<mapsto> queue')\<rparr>
          in (case x of
                None \<Rightarrow> raise_after_remove st' key QueueEmpty
              | Some m \<Rightarrow>
                  (case header m of
                     None \<Rightarrow> Some (Inl (KeyError, st'))
                   | Some h \<Rightarrow>
                       if error h \<noteq> None \<and> \<not> raw_flag
                       then raise_after_remove st' key (the (error h))
                       else
                         let result' = (if type h \<noteq> NLMSG_DONE K \<or> raw_flag
                                        then result @ [m] else result)
                         in if type h = NLMSG_DONE K \<or> flags h AND NLM_F_MULTI K = 0
                            then Some (Inr (result', st'))
                            else if raw_flag then Some (Inr (result', st'))
                            else get_loop K st' key raw_flag queue' result')))"

text \<open>\<^verbatim>\<open>get(key, raw, timeout)\<close> (client.py lines 370-406). The timeout is real time
  and is not modelled: a pop from an empty queue times out.\<close>

definition get ::
  "collab \<Rightarrow> 'w netlink \<Rightarrow> int \<Rightarrow> bool \<Rightarrow> (msg list, 'w) result option"
where
  "get K st key raw_flag =
     (case listeners st key of
        None \<Rightarrow> Some (Inl (KeyError, st))
      | Some queue \<Rightarrow>
          (case get_loop K st key raw_flag queue [] of
             None \<Rightarrow> None
           | Some (Inl ex) \<Rightarrow> Some (Inl ex)
           | Some (Inr (result, st')) \<Rightarrow>
               if \<not> persist queue then
                 (case remove_queue st' key of
                    None \<Rightarrow> None
                  | Some (Inl ex) \<Rightarrow> Some (Inl ex)
                  | Some (Inr st'') \<Rightarrow> Some (Inr (result, st'')))
               else Some (Inr (result, st'))))"

section \<open>Sequence allocator and request dispatcher\<close>

text \<open>\<^verbatim>\<open>nonce()\<close> (client.py lines 408-414). Python integers are unbounded; the lock
  is not modelled.\<close>

definition nonce :: "'w netlink \<Rightarrow> int \<times> 'w netlink" where
  "nonce st =
     (let st' = (if p_nonce st = 0xffffffff then st\<lparr>p_nonce := 1\<rparr>
                 else st\<lparr>p_nonce := p_nonce st + 1\<rparr>)
      in (p_nonce st', st'))"

text \<open>The values returned by \<open>n\<close> successive calls of \<^verbatim>\<open>nonce()\<close>, and the object after
  \<open>n\<close> calls.\<close>

fun nonces :: "nat \<Rightarrow> 'w netlink \<Rightarrow> int list" where
  "nonces 0 st = []"
| "nonces (Suc n) st = (case nonce st of (v, st') \<Rightarrow> v # nonces n st')"

fun after_calls :: "nat \<Rightarrow> 'w netlink \<Rightarrow> 'w netlink" where
  "after_calls 0 st = st"
| "after_calls (Suc n) st = after_calls n (snd (nonce st))"

text \<open>
  \<^verbatim>\<open>nlm_push\<close> (client.py lines 416-439): fills the header of the message and sends
  the envelope. The encoders are outside the two files; the envelope is recorded as it
  is before encoding.
\<close>

definition nlm_push ::
  "collab \<Rightarrow> 'w netlink \<Rightarrow> msg \<Rightarrow> int option \<Rightarrow> int option \<Rightarrow> int option \<Rightarrow> int \<Rightarrow> int
     \<Rightarrow> (exn \<times> 'w netlink) + 'w netlink"
where
  "nlm_push K st m msg_type msg_flags env_flags realm n =
     (case header m of
        None \<Rightarrow> Inl (KeyError, st)
      | Some h \<Rightarrow>
          let h1 = h\<lparr>sequence_number := n, pid := getpid K\<rparr>;
              h2 = (case msg_type of None \<Rightarrow> h1 | Some t \<Rightarrow> h1\<lparr>type := t\<rparr>);
              h3 = (case msg_flags of None \<Rightarrow> h2 | Some f \<Rightarrow> h2\<lparr>flags := f\<rparr>);
              envelope = \<lparr>out_sequence_number = n, out_pid = getpid K,
                          out_type = NLMSG_TRANSPORT K, out_flags = env_flags,
                          out_dst = realm, out_src = 0,
                          out_cdata = m\<lparr>header := Some h3\<rparr>\<rparr>
          in Inr (st\<lparr>bridge := bridge st @ [envelope]\<rparr>))"

text \<open>
  Delivery to a listener as \<^verbatim>\<open>parse\<close> does it (client.py lines 209-214):
  \<^verbatim>\<open>put_nowait\<close> under \<^verbatim>\<open>except Queue.Full: pass\<close>, and nothing for a missing key.
\<close>

definition enqueue :: "'w netlink \<Rightarrow> int \<Rightarrow> msg option \<Rightarrow> 'w netlink" where
  "enqueue st key x =
     (case listeners st key of
        None \<Rightarrow> st
      | Some q \<Rightarrow>
          (case put_nowait q x of
             Inl e \<Rightarrow> st
           | Inr q' \<Rightarrow> st\<lparr>listeners := (listeners st)(key \<mapsto> q')\<rparr>))"

text \<open>
  Between \<^verbatim>\<open>nlm_push\<close> and \<^verbatim>\<open>get\<close> the reassembly thread delivers the replies to the
  request. The request dispatcher takes them as an argument: \<open>replies\<close> are the items
  that reach the queue of the request before its \<^verbatim>\<open>get\<close> times out.
\<close>

fun arrive :: "'w netlink \<Rightarrow> int \<Rightarrow> msg option list \<Rightarrow> 'w netlink" where
  "arrive st key [] = st"
| "arrive st key (x # xs) = arrive (enqueue st key x) key xs"

text \<open>The final loop of \<^verbatim>\<open>nlm_request\<close> (client.py lines 456-460); \<^verbatim>\<open>msg.reset()\<close>
  only rewinds the buffer of the message.\<close>

fun reset_all :: "bool \<Rightarrow> msg list \<Rightarrow> exn + msg list" where
  "reset_all dbg [] = Inr []"
| "reset_all dbg (m # ms) =
     (if dbg then map_sum id ((#) m) (reset_all dbg ms)
      else (case header m of
              None \<Rightarrow> Inl KeyError
            | Some h \<Rightarrow> map_sum id ((#) (m\<lparr>header := None\<rparr>)) (reset_all dbg ms)))"

text \<open>\<^verbatim>\<open>nlm_request\<close> (client.py lines 441-461). \<^verbatim>\<open>realm or self.default_realm\<close> takes
  the default for \<^verbatim>\<open>None\<close> and for 0.\<close>

definition nlm_request ::
  "collab \<Rightarrow> 'w netlink \<Rightarrow> msg \<Rightarrow> int option \<Rightarrow> int option \<Rightarrow> int option \<Rightarrow> int option
     \<Rightarrow> msg option list \<Rightarrow> (msg list, 'w) result option"
where
  "nlm_request K st m msg_type msg_flags env_flags realm replies =
     (let realm' = (case realm of None \<Rightarrow> default_realm st
                    | Some r \<Rightarrow> if r = 0 then default_realm st else r);
          (n, st1) = nonce st;
          st2 = st1\<lparr>listeners := (listeners st1)(n \<mapsto> Queue QUEUE_MAXSIZE)\<rparr>
      in (case nlm_push K st2 m msg_type msg_flags env_flags realm' n of
            Inl ex \<Rightarrow> Some (Inl ex)
          | Inr st3 \<Rightarrow>
              (case get K (arrive st3 n replies) n False of
                 None \<Rightarrow> None
               | Some (Inl ex) \<Rightarrow> Some (Inl ex)
               | Some (Inr (result, st4)) \<Rightarrow>
                   (case reset_all (debug st4) result of
                      Inl e \<Rightarrow> Some (Inl (e, st4))
                    | Inr result' \<Rightarrow> Some (Inr (result', st4))))))"

section \<open>Control plane: \<^verbatim>\<open>command\<close>, \<^verbatim>\<open>monitor\<close>, \<^verbatim>\<open>mirror\<close>\<close>

text \<open>\<^verbatim>\<open>mgmtmsg(io.BytesIO())\<close> with \<^verbatim>\<open>cmd\<close> and \<^verbatim>\<open>attrs\<close> set (client.py lines
  217-219).\<close>

definition mgmtmsg :: "int \<Rightarrow> (string \<times> pyval) list \<Rightarrow> msg" where
  "mgmtmsg c as =
     \<lparr>header = Some \<lparr>type = 0, flags = 0, sequence_number = 0, pid = 0, error = None\<rparr>,
      cmd = Some c, attrs = as, raw = None\<rparr>"

text \<open>\<^verbatim>\<open>command(cmd, attrs, expect)\<close> (client.py lines 216-225).\<close>

definition command ::
  "collab \<Rightarrow> 'w netlink \<Rightarrow> int \<Rightarrow> (string \<times> pyval) list \<Rightarrow> string option
     \<Rightarrow> msg option list \<Rightarrow> (pyval, 'w) result option"
where
  "command K st c as expect replies =
     (case nlm_request K st (mgmtmsg c as) (Some (NLMSG_CONTROL K)) (Some 0) (Some 1) None
             replies of
        None \<Rightarrow> None
      | Some (Inl ex) \<Rightarrow> Some (Inl ex)
      | Some (Inr (result, st')) \<Rightarrow>
          (case result of
             [] \<Rightarrow> Some (Inl (IndexError, st'))
           | rsp # _ \<Rightarrow>
               (case cmd rsp of
                  None \<Rightarrow> Some (Inl (KeyError, st'))
                | Some c' \<Rightarrow>
                    if c' \<noteq> IPRCMD_ACK K then Some (Inl (AssertionError, st'))
                    else (case expect of
                            Some name \<Rightarrow> Some (Inr (get_attr K rsp name, st'))
                          | None \<Rightarrow> Some (Inr (PNone, st'))))))"

text \<open>\<^verbatim>\<open>monitor(operate)\<close> (client.py lines 282-303).\<close>

definition monitor ::
  "collab \<Rightarrow> 'w netlink \<Rightarrow> bool \<Rightarrow> msg option list \<Rightarrow> (unit, 'w) result option"
where
  "monitor K st operate replies =
     (if operate \<and> cid st = PNone then
        (let st1 = st\<lparr>listeners := (listeners st)(0 \<mapsto> Queue QUEUE_MAXSIZE)\<rparr>
         in case command K st1 (IPRCMD_SUBSCRIBE K)
                   [(''IPR_ATTR_KEY'',
                     PDict [(''offset'', PInt 8), (''key'', PInt 0), (''mask'', PInt 0)])]
                   (Some ''IPR_ATTR_CID'') replies of
              None \<Rightarrow> None
            | Some (Inl ex) \<Rightarrow> Some (Inl ex)
            | Some (Inr (v, st2)) \<Rightarrow> Some (Inr ((), st2\<lparr>cid := v\<rparr>)))
      else
        (case command K st (IPRCMD_UNSUBSCRIBE K) [(''IPR_ATTR_CID'', cid st)] None replies of
           None \<Rightarrow> None
         | Some (Inl ex) \<Rightarrow> Some (Inl ex)
         | Some (Inr (v, st1)) \<Rightarrow>
             (let st2 = st1\<lparr>cid := PNone\<rparr>
              in if listeners st2 0 = None then Some (Inl (KeyError, st2))
                 else Some (Inr ((), st2\<lparr>listeners := (listeners st2)(0 := None)\<rparr>)))))"

text \<open>\<^verbatim>\<open>mirror(operate)\<close> (client.py lines 273-280).\<close>

definition mirror ::
  "collab \<Rightarrow> 'w netlink \<Rightarrow> bool \<Rightarrow> msg option list \<Rightarrow> (unit, 'w) result option"
where
  "mirror K st operate replies =
     (case monitor K st operate replies of
        None \<Rightarrow> None
      | Some (Inl ex) \<Rightarrow> Some (Inl ex)
      | Some (Inr (u, st')) \<Rightarrow> Some (Inr ((), st'\<lparr>p_mirror := operate\<rparr>)))"

section \<open>Parser and callback chain\<close>

text \<open>
  The callback loop of \<^verbatim>\<open>parse\<close> (client.py lines 189-191):
  \<^verbatim>\<open>if cr[0](msg): cr[1](msg, *cr[2])\<close> for every entry, with no exception handler.
\<close>

fun run_callbacks :: "'w callback list \<Rightarrow> msg \<Rightarrow> 'w \<Rightarrow> (exn \<times> 'w) + 'w" where
  "run_callbacks [] m w = Inr w"
| "run_callbacks (cr # crs) m w =
     (case fst cr m w of
        (Inl e, w1) \<Rightarrow> Inl (e, w1)
      | (Inr b, w1) \<Rightarrow>
          if b then
            (case fst (snd cr) m (snd (snd cr)) w1 of
               (Inl e, w2) \<Rightarrow> Inl (e, w2)
             | (Inr u, w2) \<Rightarrow> run_callbacks crs m w2)
          else run_callbacks crs m w1)"

text \<open>The mirror branch of \<^verbatim>\<open>parse\<close> (client.py lines 201-207): only
  \<^verbatim>\<open>Queue.Full\<close> is caught.\<close>

definition mirror_copy ::
  "collab \<Rightarrow> 'w netlink \<Rightarrow> byte list \<Rightarrow> (exn \<times> 'w netlink) + 'w netlink"
where
  "mirror_copy K st bs =
     (case listeners st 0 of
        None \<Rightarrow> Inl (KeyError, st)
      | Some q0 \<Rightarrow>
          (case marshal_parse K bs of
             Inl e \<Rightarrow> Inl (e, st)
           | Inr [] \<Rightarrow> Inl (IndexError, st)
           | Inr (c # _) \<Rightarrow>
               (case put_nowait q0 (Some c) of
                  Inl e \<Rightarrow> Inr st
                | Inr q0' \<Rightarrow> Inr (st\<lparr>listeners := (listeners st)(0 \<mapsto> q0')\<rparr>))))"

text \<open>The loop \<^verbatim>\<open>for msg in self.marshal.parse(data)\<close> of \<^verbatim>\<open>parse\<close> (client.py lines
  183-214).\<close>

fun parse_msgs :: "collab \<Rightarrow> 'w netlink \<Rightarrow> msg list \<Rightarrow> (exn \<times> 'w netlink) + 'w netlink" where
  "parse_msgs K st [] = Inr st"
| "parse_msgs K st (m # ms) =
     (case header m of
        None \<Rightarrow> Inl (KeyError, st)
      | Some h \<Rightarrow>
          (case run_callbacks (callbacks st) m (world st) of
             Inl (e, w) \<Rightarrow> Inl (e, st\<lparr>world := w\<rparr>)
           | Inr w \<Rightarrow>
               let st1 = st\<lparr>world := w\<rparr>;
                   key = (if listeners st1 (sequence_number h) = None then 0
                          else sequence_number h)
               in (case (if p_mirror st1 \<and> key \<noteq> 0 \<and> raw m \<noteq> None
                         then mirror_copy K st1 (the (raw m)) else Inr st1) of
                     Inl ex \<Rightarrow> Inl ex
                   | Inr st2 \<Rightarrow> parse_msgs K (enqueue st2 key (Some m)) ms)))"

definition parse :: "collab \<Rightarrow> 'w netlink \<Rightarrow> byte list \<Rightarrow> (exn \<times> 'w netlink) + 'w netlink" where
  "parse K st data =
     (case marshal_parse K data of
        Inl e \<Rightarrow> Inl (e, st)
      | Inr ms \<Rightarrow> parse_msgs K st ms)"

section \<open>Reassembler: \<^verbatim>\<open>_feed_buffers\<close>\<close>

text \<open>
  \<^verbatim>\<open>struct.unpack('IHH', bytes)\<close>: an unsigned 32-bit and two unsigned 16-bit integers
  in the byte order of the machine, little-endian here as in the wire format;
  \<^verbatim>\<open>struct.error\<close> unless exactly 8 bytes are given.
\<close>

definition le_nat :: "byte list \<Rightarrow> nat" where
  "le_nat bs = foldr (\<lambda>b n. unat b + 256 * n) bs 0"

definition unpack_IHH :: "byte list \<Rightarrow> exn + (nat \<times> nat \<times> nat)" where
  "unpack_IHH bs =
     (if length bs \<noteq> 8 then Inl StructError
      else Inr (le_nat (take 4 bs), le_nat (take 2 (drop 4 bs)), le_nat (drop 6 bs)))"

text \<open>
  The handling of one complete slice (client.py lines 160-177). The result carries the
  new value of the local variable \<^verbatim>\<open>buf\<close>: inside the \<^verbatim>\<open>try\<close> the variable is bound
  again, to a buffer that holds the CDATA bytes. Writing \<^verbatim>\<open>None\<close> into a
  \<^verbatim>\<open>BytesIO\<close> raises \<^verbatim>\<open>TypeError\<close>. Only \<^verbatim>\<open>AttributeError\<close> is caught.
\<close>

definition dispatch ::
  "collab \<Rightarrow> 'w netlink \<Rightarrow> byte list \<Rightarrow> nat \<Rightarrow> (exn \<times> 'w netlink) + (byte list \<times> 'w netlink)"
where
  "dispatch K st data fl =
     (case envmsg_decode K data of
        Inl e \<Rightarrow> Inl (e, st)
      | Inr envelope \<Rightarrow>
          (case env_cdata envelope of
             None \<Rightarrow> Inl (TypeError, st)
           | Some buf \<Rightarrow>
               (case (if fl = 1 then
                        (case mgmtmsg_decode K buf of
                           Inl e \<Rightarrow> Inl (e, st)
                         | Inr m \<Rightarrow>
                             (case listeners st (env_sequence_number envelope) of
                                None \<Rightarrow> Inl (KeyError, st)
                              | Some q \<Rightarrow>
                                  (case put_nowait q (Some m) of
                                     Inl e \<Rightarrow> Inl (e, st)
                                   | Inr q' \<Rightarrow>
                                       Inr (st\<lparr>listeners :=
                                          (listeners st)(env_sequence_number envelope \<mapsto> q')\<rparr>))))
                      else parse K st buf) of
                  Inl (e, st') \<Rightarrow> if e = AttributeError then Inr (buf, st') else Inl (e, st')
                | Inr st' \<Rightarrow> Inr (buf, st'))))"

text \<open>
  The inner loop \<^verbatim>\<open>while offset < buf.length\<close> (client.py lines 138-179) on the
  buffer \<open>buf\<close>. The result is the new value of \<^verbatim>\<open>save\<close>. A declared length of 0 leaves
  the offset where it is, so the loop need not end.
\<close>

partial_function (option) reasm_walk ::
  "collab \<Rightarrow> 'w netlink \<Rightarrow> byte list \<Rightarrow> nat \<Rightarrow> (byte list option, 'w) result option"
where
  "reasm_walk K st buf offset =
     (if offset < length buf then
        (case unpack_IHH (take 8 (drop offset buf)) of
           Inl e \<Rightarrow> Some (Inl (e, st))
         | Inr (len, mtype, fl) \<Rightarrow>
             if offset + len > length buf then Some (Inr (Some (drop offset buf), st))
             else
               (let data = take len (drop offset buf)
                in case dispatch K (st\<lparr>emitted := emitted st @ [data]\<rparr>) data fl of
                     Inl ex \<Rightarrow> Some (Inl ex)
                   | Inr (buf', st') \<Rightarrow> reasm_walk K st' buf' (offset + len)))
      else Some (Inr (None, st)))"

text \<open>
  \<^verbatim>\<open>_feed_buffers\<close> (client.py lines 116-179) on the blobs that the reader thread has
  put into \<^verbatim>\<open>self.buffers\<close>. \<open>Inl\<close> is an exception that ends the thread; \<open>Inr\<close> is
  the thread returning on the stop event or waiting for the next blob, with the carry
  \<^verbatim>\<open>save\<close>.
\<close>

fun feed_buffers ::
  "collab \<Rightarrow> 'w netlink \<Rightarrow> byte list option \<Rightarrow> byte list list
     \<Rightarrow> (byte list option, 'w) result option"
where
  "feed_buffers K st save [] = Some (Inr (save, st))"
| "feed_buffers K st save (blob # blobs) =
     (if p_stop_event st then Some (Inr (save, st))
      else
        (case reasm_walk K st (case save of None \<Rightarrow> blob | Some s \<Rightarrow> s @ blob) 0 of
           None \<Rightarrow> None
         | Some (Inl ex) \<Rightarrow> Some (Inl ex)
         | Some (Inr (save', st')) \<Rightarrow> feed_buffers K st' save' blobs))"

section \<open>\<^verbatim>\<open>IPRoute.link\<close> and \<^verbatim>\<open>IPRoute.addr\<close>\<close>

text \<open>The \<^verbatim>\<open>command\<close> argument: a name to look up in \<^verbatim>\<open>commands\<close>, or a message type
  given as a number.\<close>

datatype cmdarg = Name string | Code int

record ifinfmsg =
  ifi_index :: pyval
  ifi_flags :: pyval
  ifi_change :: pyval
  ifi_attrs :: "(string \<times> pyval) list"

record ifaddrmsg =
  ifa_index :: pyval
  ifa_family :: int
  ifa_prefixlen :: pyval
  ifa_scope :: pyval
  ifa_attrs :: "(string \<times> pyval) list"

text \<open>\<^verbatim>\<open>socket.AF_INET\<close> and \<^verbatim>\<open>socket.AF_INET6\<close> of the Python standard library on
  Linux, and the message types of iproute.py lines 89-94.\<close>

definition AF_INET :: int where "AF_INET = 2"
definition AF_INET6 :: int where "AF_INET6 = 10"

definition RTM_NEWLINK :: int where "RTM_NEWLINK = 16"
definition RTM_DELLINK :: int where "RTM_DELLINK = 17"
definition RTM_SETLINK :: int where "RTM_SETLINK = 19"
definition RTM_NEWADDR :: int where "RTM_NEWADDR = 20"
definition RTM_DELADDR :: int where "RTM_DELADDR = 21"

text \<open>Python's truth value of an object, as \<^verbatim>\<open>or\<close> tests it.\<close>

fun truthy :: "pyval \<Rightarrow> bool" where
  "truthy PNone = False"
| "truthy (PInt i) = (i \<noteq> 0)"
| "truthy (PStr s) = (s \<noteq> [])"
| "truthy (PDict d) = (d \<noteq> [])"

text \<open>\<^verbatim>\<open>commands.get(command, command)\<close>.\<close>

definition commands_get :: "(string \<times> int) list \<Rightarrow> cmdarg \<Rightarrow> cmdarg" where
  "commands_get commands c =
     (case c of
        Name s \<Rightarrow> (case map_of commands s of None \<Rightarrow> c | Some v \<Rightarrow> Code v)
      | Code v \<Rightarrow> c)"

text \<open>The keyword dictionary \<^verbatim>\<open>kwarg\<close> in the order of its iteration, with
  \<^verbatim>\<open>kwarg.get(k)\<close>, \<^verbatim>\<open>del kwarg[k]\<close> and \<^verbatim>\<open>kwarg.pop(k, d)\<close>.\<close>

definition kwarg_get :: "(string \<times> pyval) list \<Rightarrow> string \<Rightarrow> pyval" where
  "kwarg_get kwarg k = (case map_of kwarg k of None \<Rightarrow> PNone | Some v \<Rightarrow> v)"

definition kwarg_del :: "(string \<times> pyval) list \<Rightarrow> string \<Rightarrow> (string \<times> pyval) list" where
  "kwarg_del kwarg k = filter (\<lambda>p. fst p \<noteq> k) kwarg"

definition kwarg_pop ::
  "(string \<times> pyval) list \<Rightarrow> string \<Rightarrow> pyval \<Rightarrow> pyval \<times> (string \<times> pyval) list"
where
  "kwarg_pop kwarg k d =
     (case map_of kwarg k of None \<Rightarrow> (d, kwarg) | Some v \<Rightarrow> (v, kwarg_del kwarg k))"

text \<open>\<^verbatim>\<open>kwarg['state'].lower()\<close>: an object that is not a string has no method
  \<^verbatim>\<open>lower\<close>.\<close>

definition lower_char :: "char \<Rightarrow> char" where
  "lower_char c =
     (if 65 \<le> (of_char c :: nat) \<and> (of_char c :: nat) \<le> 90
      then char_of (of_char c + (32 :: nat)) else c)"

definition lower :: "pyval \<Rightarrow> exn + string" where
  "lower v = (case v of PStr s \<Rightarrow> Inr (map lower_char s) | _ \<Rightarrow> Inl AttributeError)"

text \<open>The loop \<^verbatim>\<open>for key in kwarg\<close> of \<^verbatim>\<open>link\<close> (iproute.py lines 483-486).\<close>

fun link_attrs :: "(string \<Rightarrow> string) \<Rightarrow> (string \<times> pyval) list \<Rightarrow> (string \<times> pyval) list" where
  "link_attrs name2nla [] = []"
| "link_attrs name2nla ((key, v) # kwarg) =
     (if v \<noteq> PNone then (name2nla key, v) # link_attrs name2nla kwarg
      else link_attrs name2nla kwarg)"

text \<open>
  \<^verbatim>\<open>IPRoute.link(command, **kwarg)\<close> (iproute.py lines 424-488) up to its last line:
  the result is the message, the message type and the flags that are passed to
  \<^verbatim>\<open>nlm_request\<close>. \<^verbatim>\<open>ifinfmsg.name2nla\<close> and the value of
  \<^verbatim>\<open>NLM_F_REQUEST | NLM_F_ACK | NLM_F_CREATE | NLM_F_EXCL\<close> are parameters.
\<close>

definition link ::
  "(string \<Rightarrow> string) \<Rightarrow> int \<Rightarrow> cmdarg \<Rightarrow> (string \<times> pyval) list
     \<Rightarrow> exn + (ifinfmsg \<times> cmdarg \<times> int)"
where
  "link name2nla msg_flags c kwarg =
     (let c' = commands_get
            [(''set'', RTM_SETLINK), (''add'', RTM_NEWLINK), (''delete'', RTM_DELLINK)] c;
          index = kwarg_get kwarg ''index'';
          (f, kwarg1) = kwarg_pop kwarg ''flags'' (PInt 0);
          fl = (if truthy f then f else PInt 0);
          (m, kwarg2) = kwarg_pop kwarg1 ''mask'' (PInt 0);
          (msk, kwarg3) =
            (if truthy m then (m, kwarg2)
             else (let (ch, kwarg') = kwarg_pop kwarg2 ''change'' (PInt 0)
                   in (if truthy ch then ch else PInt 0, kwarg')))
      in (case (if map_of kwarg3 ''state'' \<noteq> None then
                  (case lower (kwarg_get kwarg3 ''state'') of
                     Inl e \<Rightarrow> Inl e
                   | Inr s \<Rightarrow>
                       Inr (if s = ''up'' then PInt 1 else fl, PInt 1,
                            kwarg_del kwarg3 ''state''))
                else Inr (fl, msk, kwarg3)) of
            Inl e \<Rightarrow> Inl e
          | Inr (fl', msk', kwarg4) \<Rightarrow>
              Inr (\<lparr>ifi_index = index, ifi_flags = fl', ifi_change = msk',
                    ifi_attrs = link_attrs name2nla kwarg4\<rparr>, c', msg_flags)))"

text \<open>\<^verbatim>\<open>str.find(sub)\<close>: the lowest index at which \<open>sub\<close> starts, or -1.\<close>

fun find_from :: "string \<Rightarrow> string \<Rightarrow> int \<Rightarrow> int" where
  "find_from [] sub i = (if sub = [] then i else - 1)"
| "find_from (c # cs) sub i =
     (if take (length sub) (c # cs) = sub then i else find_from cs sub (i + 1))"

definition str_find :: "string \<Rightarrow> string \<Rightarrow> int" where
  "str_find s sub = find_from s sub 0"

text \<open>
  \<^verbatim>\<open>IPRoute.addr(command, index, address, mask, family, scope)\<close> (iproute.py lines
  490-530) up to its last line; the argument \<^verbatim>\<open>mask\<close> is \<open>prefixlen\<close> here, and
  \<^verbatim>\<open>family=None\<close> is \<open>PNone\<close>.
\<close>

definition addr ::
  "int \<Rightarrow> cmdarg \<Rightarrow> pyval \<Rightarrow> string \<Rightarrow> pyval \<Rightarrow> pyval \<Rightarrow> pyval
     \<Rightarrow> ifaddrmsg \<times> cmdarg \<times> int"
where
  "addr msg_flags c index address prefixlen family scope =
     (let c' = commands_get [(''add'', RTM_NEWADDR), (''delete'', RTM_DELADDR)] c;
          family' = (if family = PNone \<and> str_find address '':'' > - 1 then AF_INET6
                     else AF_INET)
      in (\<lparr>ifa_index = index, ifa_family = family', ifa_prefixlen = prefixlen,
           ifa_scope = scope,
           ifa_attrs =
             (if family' = AF_INET
              then [(''IFA_LOCAL'', PStr address), (''IFA_ADDRESS'', PStr address)]
              else if family' = AF_INET6 then [(''IFA_ADDRESS'', PStr address)]
              else [])\<rparr>,
          c', msg_flags))"

section \<open>Auxiliary notions for the statements\<close>

text \<open>
  A message on which the loop of \<^verbatim>\<open>get\<close> goes on when \<^verbatim>\<open>raw\<close> is false: it has a
  header, the header carries no error, its type is not \<^verbatim>\<open>NLMSG_DONE\<close> and its flags
  include \<^verbatim>\<open>NLM_F_MULTI\<close>.
\<close>

definition continuing :: "collab \<Rightarrow> msg \<Rightarrow> bool" where
  "continuing K m =
     (case header m of
        None \<Rightarrow> False
      | Some h \<Rightarrow> error h = None \<and> type h \<noteq> NLMSG_DONE K \<and> flags h AND NLM_F_MULTI K \<noteq> 0)"

text \<open>What the final loop of \<^verbatim>\<open>nlm_request\<close> does to a message that has a header.\<close>

definition strip :: "bool \<Rightarrow> msg \<Rightarrow> msg" where
  "strip dbg m = (if dbg then m else m\<lparr>header := None\<rparr>)"

text \<open>The object after \<^verbatim>\<open>command(c, as)\<close> has allocated its sequence number,
  registered the queue and pushed the management message.\<close>

definition pushed :: "collab \<Rightarrow> 'w netlink \<Rightarrow> int \<Rightarrow> (string \<times> pyval) list \<Rightarrow> 'w netlink" where
  "pushed K st c as =
     projr (nlm_push K
       ((snd (nonce st))\<lparr>listeners := (listeners st)(fst (nonce st) \<mapsto> Queue QUEUE_MAXSIZE)\<rparr>)
       (mgmtmsg c as) (Some (NLMSG_CONTROL K)) (Some 0) (Some 1) (default_realm st)
       (fst (nonce st)))"

section \<open>Sample collaborators and inputs\<close>

text \<open>
  Modelled from the spec: the envelope decoder \<^verbatim>\<open>envmsg\<close>, the management decoder
  \<^verbatim>\<open>mgmtmsg\<close>, the \<^verbatim>\<open>Marshal\<close> and the protocol constants are not among the source
  files. The general statements below take them as the parameter \<open>K\<close> and hold for
  every value of it. To run the model on concrete inputs, \<open>sample\<close> fixes one value:
  \<^verbatim>\<open>NLMSG_DONE = 3\<close> and \<^verbatim>\<open>NLM_F_MULTI = 2\<close> as in the Linux netlink header,
  distinct values for the other constants, and decoders that read the wire layout the
  specification gives for the envelope: a 16-byte header (length, type, flags, sequence
  number, pid), two 4-byte realm fields, and one attribute with a 4-byte header (length,
  kind) whose payload is the inner message. The sample marshal reads one inner message
  with a 16-byte header of the same shape; \<^verbatim>\<open>get_attr\<close> returns the first attribute
  of the given name, or \<^verbatim>\<open>None\<close>.
\<close>

definition sample_get_attr :: "msg \<Rightarrow> string \<Rightarrow> pyval" where
  "sample_get_attr m name = (case map_of (attrs m) name of None \<Rightarrow> PNone | Some v \<Rightarrow> v)"

definition parse_nlhdr :: "byte list \<Rightarrow> nlhdr" where
  "parse_nlhdr bs =
     \<lparr>type = int (le_nat (take 2 (drop 4 bs))), flags = int (le_nat (take 2 (drop 6 bs))),
      sequence_number = int (le_nat (take 4 (drop 8 bs))),
      pid = int (le_nat (take 4 (drop 12 bs))), error = None\<rparr>"

definition sample_envmsg_decode :: "byte list \<Rightarrow> exn + envmsg" where
  "sample_envmsg_decode data =
     (if length data < 24 \<or> le_nat (take 4 data) \<noteq> length data
      then Inl (OtherError ''MalformedEnvelope'')
      else Inr \<lparr>env_sequence_number = int (le_nat (take 4 (drop 8 data))),
                env_cdata = (if length data < 28 then None
                             else Some (take (le_nat (take 2 (drop 24 data)) - 4)
                                          (drop 28 data)))\<rparr>)"

definition sample_marshal_parse :: "byte list \<Rightarrow> exn + msg list" where
  "sample_marshal_parse bs =
     (if length bs < 16 then Inr []
      else Inr [\<lparr>header = Some (parse_nlhdr bs), cmd = None, attrs = [], raw = Some bs\<rparr>])"

definition sample_mgmtmsg_decode :: "byte list \<Rightarrow> exn + msg" where
  "sample_mgmtmsg_decode bs =
     (if length bs < 20 then Inl (OtherError ''MalformedMessage'')
      else Inr \<lparr>header = Some (parse_nlhdr bs),
                cmd = Some (int (le_nat (take 4 (drop 16 bs)))), attrs = [], raw = Some bs\<rparr>)"

definition sample :: collab where
  "sample =
     \<lparr>NLMSG_DONE = 3, NLM_F_MULTI = 2, NLMSG_CONTROL = 14, NLMSG_TRANSPORT = 15,
      IPRCMD_ACK = 6, IPRCMD_SUBSCRIBE = 7, IPRCMD_UNSUBSCRIBE = 8, getpid = 4242,
      envmsg_decode = sample_envmsg_decode, mgmtmsg_decode = sample_mgmtmsg_decode,
      marshal_parse = sample_marshal_parse, get_attr = sample_get_attr\<rparr>"

text \<open>A parsed message with the given type, flags, sequence number and error; an
  acknowledgement of a management command; and an object that has one queue, registered
  under \<open>key\<close> and holding \<open>xs\<close>.\<close>

definition reply :: "int \<Rightarrow> int \<Rightarrow> int \<Rightarrow> exn option \<Rightarrow> msg" where
  "reply t f s e =
     \<lparr>header = Some \<lparr>type = t, flags = f, sequence_number = s, pid = 0, error = e\<rparr>,
      cmd = None, attrs = [], raw = None\<rparr>"

definition ack :: "collab \<Rightarrow> (string \<times> pyval) list \<Rightarrow> msg" where
  "ack K as =
     \<lparr>header = Some \<lparr>type = NLMSG_CONTROL K, flags = 0, sequence_number = 0, pid = 0,
                      error = None\<rparr>,
      cmd = Some (IPRCMD_ACK K), attrs = as, raw = None\<rparr>"


text \<open>
  Two envelopes in the sample wire layout. \<open>envelope44\<close> has 44 bytes and carries an
  inner message of 16 bytes (type 16, flags \<^verbatim>\<open>MULTI\<close>, sequence number 1);
  \<open>envelope40\<close> has 40 bytes and a payload of 12 bytes.
\<close>

definition envelope44 :: "byte list" where
  "envelope44 =
     [44, 0, 0, 0,  15, 0,  0, 0,  1, 0, 0, 0,  0, 0, 0, 0,
      0, 0, 0, 0,  0, 0, 0, 0,
      20, 0,  1, 0,
      16, 0, 0, 0,  16, 0,  2, 0,  1, 0, 0, 0,  0, 0, 0, 0]"

definition envelope40 :: "byte list" where
  "envelope40 =
     [40, 0, 0, 0,  15, 0,  0, 0,  2, 0, 0, 0,  0, 0, 0, 0,
      0, 0, 0, 0,  0, 0, 0, 0,
      16, 0,  1, 0,
      1, 2, 3, 4,  5, 6, 7, 8,  9, 10, 11, 12]"









section \<open>Closed forms used in the statements\<close>



section \<open>Sequence allocator: range, wrap-around, distinct values\<close>

lemma nonce_value:
  "0 \<le> p_nonce st \<Longrightarrow> p_nonce st \<le> 0xffffffff \<Longrightarrow>
   fst (nonce st) = p_nonce st mod 0xffffffff + 1"
  by (auto simp: nonce_def Let_def)

lemma nonce_state: "p_nonce (snd (nonce st)) = fst (nonce st)"
  by (simp add: nonce_def Let_def)

lemma nonce_range:
  "0 \<le> p_nonce st \<Longrightarrow> p_nonce st \<le> 0xffffffff \<Longrightarrow>
   1 \<le> fst (nonce st) \<and> fst (nonce st) \<le> 0xffffffff"
  by (auto simp: nonce_def Let_def)

text \<open>Every object reached from the constructor by calls of \<^verbatim>\<open>nonce()\<close> has its
  counter between 0 and \<open>2^32 - 1\<close>.\<close>

lemma after_calls_range:
  "0 \<le> p_nonce st \<Longrightarrow> p_nonce st \<le> 0xffffffff \<Longrightarrow>
   0 \<le> p_nonce (after_calls k st) \<and> p_nonce (after_calls k st) \<le> 0xffffffff"
proof (induction k arbitrary: st)
  case 0
  then show ?case by simp
next
  case (Suc k)
  have "1 \<le> fst (nonce st) \<and> fst (nonce st) \<le> 0xffffffff"
    using Suc.prems by (rule nonce_range)
  then show ?case using Suc.IH [of "snd (nonce st)"] by (simp add: nonce_state)
qed

lemma reachable_nonce_range:
  "0 \<le> p_nonce (after_calls k (init dbg w)) \<and> p_nonce (after_calls k (init dbg w)) \<le> 0xffffffff"
  by (rule after_calls_range) (simp_all add: init_def)

lemma nonces_closed_form:
  "0 \<le> p_nonce st \<Longrightarrow> p_nonce st \<le> 0xffffffff \<Longrightarrow>
   nonces n st = map (\<lambda>k. (p_nonce st + int k) mod 0xffffffff + 1) [0..<n]"
proof (induction n arbitrary: st)
  case 0
  then show ?case by simp
next
  case (Suc n)
  let ?v = "fst (nonce st)" and ?st' = "snd (nonce st)"
  have v: "?v = p_nonce st mod 0xffffffff + 1" using Suc.prems by (rule nonce_value)
  have r: "1 \<le> ?v \<and> ?v \<le> 0xffffffff" using Suc.prems by (rule nonce_range)
  have "nonces n ?st' = map (\<lambda>k. (p_nonce ?st' + int k) mod 0xffffffff + 1) [0..<n]"
    using r by (intro Suc.IH) (simp_all add: nonce_state)
  also have "\<dots> = map (\<lambda>k. (p_nonce st + int (Suc k)) mod 0xffffffff + 1) [0..<n]"
  proof (rule map_cong [OF refl])
    fix k
    have "(p_nonce st mod 0xffffffff + 1 + int k) mod 0xffffffff
        = (p_nonce st + (1 + int k)) mod 0xffffffff"
      by (metis add.assoc mod_add_left_eq)
    then show "(p_nonce ?st' + int k) mod 0xffffffff + 1
        = (p_nonce st + int (Suc k)) mod 0xffffffff + 1"
      by (simp add: nonce_state v add.commute add.left_commute)
  qed
  finally have tl: "nonces n ?st'
      = map ((\<lambda>k. (p_nonce st + int k) mod 0xffffffff + 1) \<circ> Suc) [0..<n]"
    by (simp add: comp_def)
  have "nonces (Suc n) st = ?v # nonces n ?st'"
    by (simp add: case_prod_unfold)
  then show ?case
    unfolding tl by (simp add: v upt_conv_Cons map_Suc_upt [symmetric] del: upt_Suc)
qed

lemma window_inj:
  assumes "n \<le> 4294967295"
  shows "inj_on (\<lambda>k. (s + int k) mod 0xffffffff + 1) {0..<n}"
proof (rule inj_onI)
  fix i j assume i: "i \<in> {0..<n}" and j: "j \<in> {0..<n}"
    and e: "(s + int i) mod 0xffffffff + 1 = (s + int j) mod 0xffffffff + 1"
  from e have "(s + int i) mod 0xffffffff = (s + int j) mod 0xffffffff" by simp
  then have "(0xffffffff::int) dvd (s + int i) - (s + int j)"
    by (simp add: mod_eq_dvd_iff)
  then have d: "(0xffffffff::int) dvd int i - int j" by simp
  have "\<bar>int i - int j\<bar> < 0xffffffff" using i j assms by auto
  with d have "int i - int j = 0"
    using zdvd_not_zless [of "\<bar>int i - int j\<bar>" 4294967295]
    by (cases "int i - int j = 0") auto
  then show "i = j" by simp
qed

text \<open>
  C4. From every allocator state that calls of \<^verbatim>\<open>nonce()\<close> can reach (a counter between
  0 and \<open>2^32 - 1\<close>, see \<open>reachable_nonce_range\<close>) the returned value lies between 1 and
  \<open>2^32 - 1\<close>, so it is never 0; the value returned after \<open>2^32 - 1\<close> is 1; and for
  every \<open>N < 2^32\<close> the values returned by \<open>N\<close> successive calls are pairwise distinct and
  all in that range.
\<close>

theorem nonce_allocator:
  assumes "0 \<le> p_nonce st" and "p_nonce st \<le> 2 ^ 32 - 1"
  shows "(1 \<le> fst (nonce st) \<and> fst (nonce st) \<le> 2 ^ 32 - 1)
       \<and> (fst (nonce st) = 2 ^ 32 - 1 \<longrightarrow> fst (nonce (snd (nonce st))) = 1)
       \<and> (N < 2 ^ 32 \<longrightarrow>
            distinct (nonces N st) \<and> (\<forall>v \<in> set (nonces N st). 1 \<le> v \<and> v \<le> 2 ^ 32 - 1))"
proof -
  have lo: "0 \<le> p_nonce st" and hi: "p_nonce st \<le> 0xffffffff" using assms by simp_all
  have a: "1 \<le> fst (nonce st) \<and> fst (nonce st) \<le> 2 ^ 32 - 1"
    using nonce_range [OF lo hi] by simp
  have b: "fst (nonce st) = 2 ^ 32 - 1 \<longrightarrow> fst (nonce (snd (nonce st))) = 1"
    by (simp add: nonce_def Let_def)
  have c: "distinct (nonces N st) \<and> (\<forall>v \<in> set (nonces N st). 1 \<le> v \<and> v \<le> 2 ^ 32 - 1)"
    if N: "N < 2 ^ 32"
  proof -
    have n: "N \<le> 4294967295" using N by simp
    have cf: "nonces N st = map (\<lambda>k. (p_nonce st + int k) mod 0xffffffff + 1) [0..<N]"
      using lo hi by (rule nonces_closed_form)
    have d: "distinct (nonces N st)"
      unfolding cf using window_inj [OF n, of "p_nonce st"] by (simp add: distinct_map)
    have "1 \<le> v \<and> v \<le> 2 ^ 32 - 1" if "v \<in> set (nonces N st)" for v
    proof -
      from that obtain k where "v = (p_nonce st + int k) mod 0xffffffff + 1"
        unfolding cf by auto
      moreover have "0 \<le> (p_nonce st + int k) mod 0xffffffff"
        and "(p_nonce st + int k) mod 0xffffffff < 0xffffffff"
        by simp_all
      ultimately show ?thesis by simp
    qed
    with d show ?thesis by blast
  qed
  from a b c show ?thesis by blast
qed

text \<open>The allocator two calls before the wrap: it returns \<open>2^32 - 1\<close>, then 1, then 2.\<close>

theorem nonce_allocator_witness:
  "fst (nonce (init False ()\<lparr>p_nonce := 4294967294\<rparr>)) = 2 ^ 32 - 1
   \<and> fst (nonce (snd (nonce (init False ()\<lparr>p_nonce := 4294967294\<rparr>)))) = 1
   \<and> nonces 3 (init False ()\<lparr>p_nonce := 4294967294\<rparr>) = [4294967295, 1, 2]
   \<and> distinct (nonces 3 (init False ()\<lparr>p_nonce := 4294967294\<rparr>))"
  using nonce_allocator [of "init False ()\<lparr>p_nonce := 4294967294\<rparr>" 3]
  by (simp add: init_def nonce_def Let_def numeral_3_eq_3)

section \<open>\<^verbatim>\<open>IPRoute.addr\<close>: the address family\<close>

lemma find_from_colon: "0 \<le> i \<Longrightarrow> (find_from s '':'' i > - 1) = (CHR '':'' \<in> set s)"
proof (induction s arbitrary: i)
  case Nil
  then show ?case by simp
next
  case (Cons c cs)
  have "(find_from cs '':'' (i + 1) > - 1) = (CHR '':'' \<in> set cs)"
    using Cons.prems by (intro Cons.IH) simp
  then show ?case using Cons.prems by auto
qed

lemma find_colon: "(str_find s '':'' > - 1) = (CHR '':'' \<in> set s)"
  by (simp add: str_find_def find_from_colon)

text \<open>
  C10. The family that \<^verbatim>\<open>addr\<close> writes into the message is \<^verbatim>\<open>AF_INET6\<close> exactly when
  the argument \<^verbatim>\<open>family\<close> is \<^verbatim>\<open>None\<close> and the address contains a colon, and it is
  \<^verbatim>\<open>AF_INET\<close> in every other case; in particular with \<^verbatim>\<open>family=AF_INET6\<close> passed
  explicitly the message family is \<^verbatim>\<open>AF_INET\<close>.
\<close>

theorem addr_family:
  "(ifa_family (fst (addr msg_flags c index address prefixlen family scope)) = AF_INET6)
     = (family = PNone \<and> CHR '':'' \<in> set address)
   \<and> (ifa_family (fst (addr msg_flags c index address prefixlen family scope)) = AF_INET)
     = (\<not> (family = PNone \<and> CHR '':'' \<in> set address))
   \<and> ifa_family (fst (addr msg_flags c index address prefixlen (PInt AF_INET6) scope)) = AF_INET"
  by (simp add: addr_def Let_def find_colon AF_INET_def AF_INET6_def)

text \<open>An IPv6 address without a family, the same address with the family forced to
  \<^verbatim>\<open>AF_INET6\<close>, and an IPv4 address.\<close>

theorem addr_family_witness:
  "ifa_family (fst (addr 0 (Name ''add'') (PInt 2) ''fe80::1'' (PInt 64) PNone (PInt 0)))
     = AF_INET6
   \<and> ifa_family (fst (addr 0 (Name ''add'') (PInt 2) ''fe80::1'' (PInt 64) (PInt AF_INET6)
        (PInt 0))) = AF_INET
   \<and> ifa_family (fst (addr 0 (Name ''add'') (PInt 2) ''10.0.0.1'' (PInt 24) PNone (PInt 0)))
     = AF_INET"
  using addr_family [of 0 "Name ''add''" "PInt 2" "''fe80::1''" "PInt 64" PNone "PInt 0"]
    addr_family [of 0 "Name ''add''" "PInt 2" "''10.0.0.1''" "PInt 24" PNone "PInt 0"]
  by (simp add: AF_INET_def AF_INET6_def)

section \<open>\<^verbatim>\<open>IPRoute.link\<close>: \<^verbatim>\<open>mask\<close> and \<^verbatim>\<open>change\<close>\<close>

lemma map_of_kwarg_del:
  "map_of (kwarg_del kwarg k) k' = (if k' = k then None else map_of kwarg k')"
  by (induction kwarg) (auto simp: kwarg_del_def)

lemma kwarg_pop_other:
  "k' \<noteq> k \<Longrightarrow> map_of (snd (kwarg_pop kwarg k d)) k' = map_of kwarg k'"
  by (simp add: kwarg_pop_def map_of_kwarg_del split: option.splits)

lemma kwarg_pop_present:
  "map_of kwarg k = Some v \<Longrightarrow> kwarg_pop kwarg k d = (v, kwarg_del kwarg k)"
  by (simp add: kwarg_pop_def)

text \<open>
  C9 as stated fails: with \<^verbatim>\<open>mask=0\<close> and \<^verbatim>\<open>change=5\<close> both supplied, the change field
  of the message is 5, the value of \<^verbatim>\<open>change\<close>, not the value of \<^verbatim>\<open>mask\<close>.
\<close>

theorem link_change_counterexample:
  "map_sum id (ifi_change \<circ> fst)
     (link (\<lambda>k. k) 0 (Name ''set'')
        [(''index'', PInt 1), (''mask'', PInt 0), (''change'', PInt 5)]) = Inr (PInt 5)"
  by (simp add: link_def Let_def kwarg_pop_def kwarg_get_def kwarg_del_def commands_get_def)

text \<open>
  C9, amended. When both \<^verbatim>\<open>mask\<close> and \<^verbatim>\<open>change\<close> are supplied and no \<^verbatim>\<open>state\<close>
  keyword is given, the change field of the message is the value of \<^verbatim>\<open>mask\<close> if that
  value is true in Python's sense (not 0, not \<^verbatim>\<open>None\<close>, not empty); otherwise it is the
  value of \<^verbatim>\<open>change\<close> if that is true, and 0 if neither is.
\<close>

theorem link_change:
  assumes "map_of kwarg ''mask'' = Some m" and "map_of kwarg ''change'' = Some ch"
    and "map_of kwarg ''state'' = None"
  shows "map_sum id (ifi_change \<circ> fst) (link name2nla msg_flags c kwarg)
         = Inr (if truthy m then m else if truthy ch then ch else PInt 0)"
proof -
  let ?k1 = "snd (kwarg_pop kwarg ''flags'' (PInt 0))"
  have m1: "map_of ?k1 ''mask'' = Some m" and c1: "map_of ?k1 ''change'' = Some ch"
    and s1: "map_of ?k1 ''state'' = None"
    using assms by (simp_all add: kwarg_pop_other)
  let ?k2 = "kwarg_del ?k1 ''mask''"
  have p2: "kwarg_pop ?k1 ''mask'' (PInt 0) = (m, ?k2)"
    using m1 by (rule kwarg_pop_present)
  have c2: "map_of ?k2 ''change'' = Some ch" and s2: "map_of ?k2 ''state'' = None"
    using c1 s1 by (simp_all add: map_of_kwarg_del)
  let ?k3 = "kwarg_del ?k2 ''change''"
  have p3: "kwarg_pop ?k2 ''change'' (PInt 0) = (ch, ?k3)"
    using c2 by (rule kwarg_pop_present)
  have s3: "map_of ?k3 ''state'' = None"
    using s2 by (simp add: map_of_kwarg_del)
  show ?thesis
    by (simp add: link_def Let_def case_prod_unfold p2 p3 s2 s3)
qed

text \<open>A true \<^verbatim>\<open>mask\<close> wins over \<^verbatim>\<open>change\<close>.\<close>

theorem link_change_witness:
  "map_sum id (ifi_change \<circ> fst)
     (link (\<lambda>k. k) 0 (Name ''set'')
        [(''index'', PInt 1), (''mask'', PInt 3), (''change'', PInt 5)]) = Inr (PInt 3)"
  using link_change [of "[(''index'', PInt 1), (''mask'', PInt 3), (''change'', PInt 5)]"
      "PInt 3" "PInt 5" "\<lambda>k. k" 0 "Name ''set''"]
  by simp

section \<open>Listener registry: what \<^verbatim>\<open>get\<close> returns and raises\<close>

lemma reroute_other:
  "reroute xs ls = Some ls' \<Longrightarrow> k \<noteq> 0 \<Longrightarrow> ls' k = ls k"
proof (induction xs arbitrary: ls)
  case Nil
  then show ?case by simp
next
  case (Cons x xs)
  show ?case
  proof (cases "ls 0")
    case None
    with Cons show ?thesis by simp
  next
    case (Some q0)
    with Cons.prems obtain q0' where p: "put q0 x = Some q0'"
      and r: "reroute xs (ls(0 \<mapsto> q0')) = Some ls'"
      by (auto split: option.splits)
    from Cons.IH [OF r Cons.prems(2)] Cons.prems(2) show ?thesis by simp
  qed
qed

lemma reroute_no_broadcast: "ls 0 = None \<Longrightarrow> reroute xs ls = Some ls"
  by (induction xs) simp_all

lemma remove_queue_absent:
  assumes "remove_queue st key = Some (Inr st')" and "key \<noteq> 0"
  shows "listeners st' key = None"
proof -
  from assms obtain q ls where "listeners st key = Some q"
    and r: "reroute (items q) ((listeners st)(key := None)) = Some ls"
    and st': "st' = st\<lparr>listeners := ls\<rparr>"
    by (auto simp: remove_queue_def split: option.splits if_splits)
  from reroute_other [OF r assms(2)] st' show ?thesis by simp
qed

lemma get_loop_collect:
  assumes "list_all (continuing K) ms"
    and "items q = map Some ms @ Some t # rest"
    and "header t = Some ht" and "error ht = None"
    and "type ht = NLMSG_DONE K \<or> flags ht AND NLM_F_MULTI K = 0"
  shows "get_loop K st key False q result =
           Some (Inr (result @ ms @ (if type ht \<noteq> NLMSG_DONE K then [t] else []),
                      st\<lparr>listeners := (listeners st)(key \<mapsto> q\<lparr>items := rest\<rparr>)\<rparr>))"
  using assms(1,2)
proof (induction ms arbitrary: st q result)
  case Nil
  then have i: "items q = Some t # rest" by simp
  show ?case
    using assms(3-5) by (subst get_loop.simps) (auto simp: i Let_def)
next
  case (Cons m ms)
  from Cons.prems obtain h where h: "header m = Some h" "error h = None"
      "type h \<noteq> NLMSG_DONE K" "flags h AND NLM_F_MULTI K \<noteq> 0"
    by (auto simp: continuing_def split: option.splits)
  have i: "items q = Some m # (map Some ms @ Some t # rest)" using Cons.prems by simp
  let ?q' = "q\<lparr>items := map Some ms @ Some t # rest\<rparr>"
  let ?st' = "st\<lparr>listeners := (listeners st)(key \<mapsto> ?q')\<rparr>"
  have "get_loop K st key False q result = get_loop K ?st' key False ?q' (result @ [m])"
    using h by (subst get_loop.simps) (simp add: i Let_def)
  also have "\<dots> = Some (Inr ((result @ [m]) @ ms @ (if type ht \<noteq> NLMSG_DONE K then [t] else []),
        ?st'\<lparr>listeners := (listeners ?st')(key \<mapsto> ?q'\<lparr>items := rest\<rparr>)\<rparr>))"
    using Cons.prems by (intro Cons.IH) simp_all
  also have "?st'\<lparr>listeners := (listeners ?st')(key \<mapsto> ?q'\<lparr>items := rest\<rparr>)\<rparr>
      = st\<lparr>listeners := (listeners st)(key \<mapsto> q\<lparr>items := rest\<rparr>)\<rparr>"
    by simp
  finally show ?case by (simp only: append_assoc append_Cons append_Nil)
qed



lemma remove_queue_present:
  assumes "listeners st key = Some q" and "key \<noteq> 0"
    and "reroute (items q) ((listeners st)(key := None)) = Some ls"
  shows "remove_queue st key = Some (Inr (st\<lparr>listeners := ls\<rparr>))"
  using assms by (simp add: remove_queue_def)

lemma remove_queue_broadcast:
  "listeners st 0 = Some q \<Longrightarrow> remove_queue st 0 = Some (Inr st)"
  by (simp add: remove_queue_def)



lemma get_collect:
  assumes "listeners st key = Some q"
    and "items q = map Some ms @ Some t # rest"
    and "list_all (continuing K) ms"
    and "header t = Some ht" and "error ht = None"
    and "type ht = NLMSG_DONE K \<or> flags ht AND NLM_F_MULTI K = 0"
  shows "get K st key False =
     (if persist q
      then Some (Inr (ms @ (if type ht \<noteq> NLMSG_DONE K then [t] else []),
                      st\<lparr>listeners := (listeners st)(key \<mapsto> q\<lparr>items := rest\<rparr>)\<rparr>))
      else (case remove_queue (st\<lparr>listeners := (listeners st)(key \<mapsto> q\<lparr>items := rest\<rparr>)\<rparr>) key of
              None \<Rightarrow> None
            | Some (Inl ex) \<Rightarrow> Some (Inl ex)
            | Some (Inr st'') \<Rightarrow>
                Some (Inr (ms @ (if type ht \<noteq> NLMSG_DONE K then [t] else []), st''))))"
proof -
  have "get_loop K st key False q [] =
      Some (Inr ([] @ ms @ (if type ht \<noteq> NLMSG_DONE K then [t] else []),
                 st\<lparr>listeners := (listeners st)(key \<mapsto> q\<lparr>items := rest\<rparr>)\<rparr>))"
    using assms(3,2,4,5,6) by (rule get_loop_collect)
  then show ?thesis by (simp add: get_def assms(1))
qed

lemma remove_queue_popped:
  assumes "key \<noteq> 0" and "reroute rest ((listeners st)(key := None)) = Some ls"
  shows "remove_queue (st\<lparr>listeners := (listeners st)(key \<mapsto> q\<lparr>items := rest\<rparr>)\<rparr>) key
         = Some (Inr (st\<lparr>listeners := ls\<rparr>))"
  using assms by (simp add: remove_queue_def)

lemma get_collect_removed:
  assumes "listeners st key = Some q" and "\<not> persist q" and "key \<noteq> 0"
    and "items q = map Some ms @ Some t # rest"
    and "list_all (continuing K) ms"
    and "header t = Some ht" and "error ht = None"
    and "type ht = NLMSG_DONE K \<or> flags ht AND NLM_F_MULTI K = 0"
    and "reroute rest ((listeners st)(key := None)) = Some ls"
  shows "get K st key False =
     Some (Inr (ms @ (if type ht \<noteq> NLMSG_DONE K then [t] else []), st\<lparr>listeners := ls\<rparr>))"
  by (simp add: get_collect [OF assms(1,4,5,6,7,8)] assms(2)
      remove_queue_popped [OF assms(3,9)])

















section \<open>Request dispatcher: the listener of a request is removed\<close>

lemma enqueue_room:
  assumes "listeners st n = Some q" and "\<not> full q"
  shows "enqueue st n x = st\<lparr>listeners := (listeners st)(n \<mapsto> q\<lparr>items := items q @ [x]\<rparr>)\<rparr>"
  using assms by (simp add: enqueue_def put_nowait_def)

lemma arrive_room:
  assumes "listeners st n = Some q"
    and "maxsize q = 0 \<or> length (items q) + length xs \<le> maxsize q"
  shows "arrive st n xs = st\<lparr>listeners := (listeners st)(n \<mapsto> q\<lparr>items := items q @ xs\<rparr>)\<rparr>"
  using assms
proof (induction xs arbitrary: st q)
  case Nil
  have "(listeners st)(n \<mapsto> q) = listeners st"
    using Nil.prems(1) by (rule map_upd_triv)
  moreover have "q\<lparr>items := items q @ []\<rparr> = q" by simp
  ultimately show ?case by simp
next
  case (Cons x xs)
  have nf: "\<not> full q" using Cons.prems(2) by (auto simp: full_def)
  let ?q' = "q\<lparr>items := items q @ [x]\<rparr>"
  let ?st' = "st\<lparr>listeners := (listeners st)(n \<mapsto> ?q')\<rparr>"
  have "arrive st n (x # xs) = arrive ?st' n xs"
    by (simp add: enqueue_room [OF Cons.prems(1) nf])
  also have "\<dots> = ?st'\<lparr>listeners := (listeners ?st')(n \<mapsto> ?q'\<lparr>items := items ?q' @ xs\<rparr>)\<rparr>"
    using Cons.prems(2) by (intro Cons.IH) auto
  also have "\<dots> = st\<lparr>listeners := (listeners st)(n \<mapsto> q\<lparr>items := items q @ x # xs\<rparr>)\<rparr>"
    by simp
  finally show ?case .
qed

lemma enqueue_keeps_persist:
  assumes "listeners st n = Some q"
  shows "\<exists>q'. listeners (enqueue st k x) n = Some q' \<and> persist q' = persist q"
  using assms by (auto simp: enqueue_def put_nowait_def split: option.splits)

lemma arrive_keeps_persist:
  assumes "listeners st n = Some q"
  shows "\<exists>q'. listeners (arrive st k xs) n = Some q' \<and> persist q' = persist q"
  using assms
proof (induction xs arbitrary: st q)
  case Nil
  then show ?case by simp
next
  case (Cons x xs)
  from enqueue_keeps_persist [OF Cons.prems, of k x]
  obtain q1 where q1: "listeners (enqueue st k x) n = Some q1" "persist q1 = persist q"
    by blast
  from Cons.IH [OF q1(1)] q1(2) show ?case by simp
qed

lemma nonce_positive: "0 \<le> p_nonce st \<Longrightarrow> 1 \<le> fst (nonce st)"
  by (simp add: nonce_def Let_def)

lemma listeners_nonce: "listeners (snd (nonce st)) = listeners st"
  by (simp add: nonce_def Let_def)

lemma nlm_push_listeners:
  "nlm_push K st m msg_type msg_flags env_flags realm n = Inr st' \<Longrightarrow> listeners st' = listeners st"
  by (auto simp: nlm_push_def Let_def split: option.splits)

lemma get_removes:
  assumes "get K st key raw_flag = Some (Inr (result, st'))"
    and "listeners st key = Some q" and "\<not> persist q" and "key \<noteq> 0"
  shows "listeners st' key = None"
proof -
  from assms obtain st1 where "remove_queue st1 key = Some (Inr st')"
    by (auto simp: get_def split: option.splits sum.splits)
  then show ?thesis using assms(4) by (rule remove_queue_absent)
qed

text \<open>
  C7. When \<^verbatim>\<open>nlm_request\<close> returns normally, the listener registered under the
  sequence number it allocated is no longer in the registry. The queue it registers is
  fresh and so never persistent; the hypothesis on the counter holds in every reachable
  state and makes the allocated number different from 0.
\<close>

theorem nlm_request_removes_listener:
  assumes "0 \<le> p_nonce st"
    and "nlm_request K st m msg_type msg_flags env_flags realm replies = Some (Inr (result, st'))"
  shows "listeners st' (fst (nonce st)) = None"
proof -
  let ?n = "fst (nonce st)" and ?st1 = "snd (nonce st)"
  let ?st2 = "?st1\<lparr>listeners := (listeners ?st1)(?n \<mapsto> Queue QUEUE_MAXSIZE)\<rparr>"
  let ?realm = "case realm of None \<Rightarrow> default_realm st
                | Some r \<Rightarrow> if r = 0 then default_realm st else r"
  from assms(2) obtain st3 res where
    push: "nlm_push K ?st2 m msg_type msg_flags env_flags ?realm ?n = Inr st3"
    and g: "get K (arrive st3 ?n replies) ?n False = Some (Inr (res, st'))"
    by (auto simp: nlm_request_def Let_def case_prod_unfold split: sum.splits option.splits)
  have "listeners st3 ?n = Some (Queue QUEUE_MAXSIZE)"
    using nlm_push_listeners [OF push] by simp
  from arrive_keeps_persist [OF this, of ?n replies]
  obtain q where q: "listeners (arrive st3 ?n replies) ?n = Some q" "\<not> persist q"
    by (auto simp: Queue_def)
  have "?n \<noteq> 0" using nonce_positive [OF assms(1)] by simp
  with g q show ?thesis by (intro get_removes)
qed

lemma reset_all_headers:
  "list_all (\<lambda>m. header m \<noteq> None) ms \<Longrightarrow> reset_all dbg ms = Inr (map (strip dbg) ms)"
  by (induction ms) (auto simp: strip_def)

lemma continuing_header: "continuing K m \<Longrightarrow> \<exists>h. header m = Some h"
  by (auto simp: continuing_def split: option.splits)

lemma nlm_push_debug:
  "nlm_push K st m msg_type msg_flags env_flags realm n = Inr st' \<Longrightarrow> debug st' = debug st"
  by (auto simp: nlm_push_def Let_def split: option.splits)

lemma nlm_request_collect:
  assumes nz: "0 \<le> p_nonce st"
    and push: "nlm_push K
        ((snd (nonce st))\<lparr>listeners := (listeners st)(fst (nonce st) \<mapsto> Queue QUEUE_MAXSIZE)\<rparr>)
        m msg_type msg_flags env_flags
        (case realm of None \<Rightarrow> default_realm st
         | Some r \<Rightarrow> if r = 0 then default_realm st else r)
        (fst (nonce st)) = Inr st3"
    and ms: "list_all (continuing K) ms" and len: "length ms < QUEUE_MAXSIZE"
    and t: "header t = Some ht" "error ht = None"
      "type ht = NLMSG_DONE K \<or> flags ht AND NLM_F_MULTI K = 0"
  shows "nlm_request K st m msg_type msg_flags env_flags realm (map Some ms @ [Some t]) =
     Some (Inr (map (strip (debug st)) (ms @ (if type ht \<noteq> NLMSG_DONE K then [t] else [])),
                st3\<lparr>listeners := (listeners st)(fst (nonce st) := None)\<rparr>))"
proof -
  let ?n = "fst (nonce st)"
  let ?q = "Queue QUEUE_MAXSIZE"
  let ?res = "ms @ (if type ht \<noteq> NLMSG_DONE K then [t] else [])"
  have n0: "?n \<noteq> 0" using nonce_positive [OF nz] by simp
  have l3: "listeners st3 = (listeners st)(?n \<mapsto> ?q)"
    using nlm_push_listeners [OF push] by simp
  have d3: "debug st3 = debug st"
    using nlm_push_debug [OF push] by (simp add: nonce_def Let_def)
  have "arrive st3 ?n (map Some ms @ [Some t]) =
      st3\<lparr>listeners := (listeners st3)(?n \<mapsto> ?q\<lparr>items := items ?q @ (map Some ms @ [Some t])\<rparr>)\<rparr>"
    using len by (intro arrive_room) (simp_all add: l3 Queue_def)
  then have arr: "arrive st3 ?n (map Some ms @ [Some t]) =
      st3\<lparr>listeners := (listeners st)(?n \<mapsto> ?q\<lparr>items := map Some ms @ [Some t]\<rparr>)\<rparr>"
    (is "_ = ?st4")
    by (simp add: l3 Queue_def)
  have "get K ?st4 ?n False =
      Some (Inr (?res, ?st4\<lparr>listeners := (listeners ?st4)(?n := None)\<rparr>))"
  proof (rule get_collect_removed [where q = "?q\<lparr>items := map Some ms @ [Some t]\<rparr>"
        and rest = "[]" and t = t and ht = ht])
    show "listeners ?st4 ?n = Some (?q\<lparr>items := map Some ms @ [Some t]\<rparr>)" by simp
    show "\<not> persist (?q\<lparr>items := map Some ms @ [Some t]\<rparr>)" by (simp add: Queue_def)
    show "?n \<noteq> 0" by (rule n0)
    show "items (?q\<lparr>items := map Some ms @ [Some t]\<rparr>) = map Some ms @ [Some t]" by simp
    show "list_all (continuing K) ms" by (rule ms)
    show "header t = Some ht" "error ht = None"
      "type ht = NLMSG_DONE K \<or> flags ht AND NLM_F_MULTI K = 0" by (rule t)+
    show "reroute [] ((listeners ?st4)(?n := None)) = Some ((listeners ?st4)(?n := None))"
      by simp
  qed
  then have g: "get K (arrive st3 ?n (map Some ms @ [Some t])) ?n False =
      Some (Inr (?res, st3\<lparr>listeners := (listeners st)(?n := None)\<rparr>))"
    by (simp add: arr)
  have hs: "list_all (\<lambda>m. header m \<noteq> None) ?res"
    using ms t(1) by (auto simp: list_all_iff dest: continuing_header)
  show ?thesis
    by (simp add: nlm_request_def Let_def case_prod_unfold listeners_nonce push g
        reset_all_headers [OF hs] d3 del: map_append)
qed

lemma nlm_push_ok:
  "header m = Some h \<Longrightarrow>
   nlm_push K st m msg_type msg_flags env_flags realm n
     = Inr (projr (nlm_push K st m msg_type msg_flags env_flags realm n))"
  by (simp add: nlm_push_def Let_def)

lemma nlm_push_fields:
  assumes "nlm_push K st m msg_type msg_flags env_flags realm n = Inr st'"
  shows "listeners st' = listeners st" and "cid st' = cid st" and "p_nonce st' = p_nonce st"
    and "debug st' = debug st"
  using assms by (auto simp: nlm_push_def Let_def split: option.splits)

lemma pushed_fields:
  "listeners (pushed K st c as) = (listeners st)(fst (nonce st) \<mapsto> Queue QUEUE_MAXSIZE)"
  "cid (pushed K st c as) = cid st"
  "p_nonce (pushed K st c as) = fst (nonce st)"
  "debug (pushed K st c as) = debug st"
  by (simp_all add: pushed_def nlm_push_def mgmtmsg_def Let_def nonce_def)

lemma command_ack:
  assumes nz: "0 \<le> p_nonce st"
    and rsp: "header rsp = Some hr" "error hr = None" "type hr \<noteq> NLMSG_DONE K"
      "flags hr AND NLM_F_MULTI K = 0" "cmd rsp = Some (IPRCMD_ACK K)"
  shows "command K st c as expect [Some rsp] =
     Some (Inr (case expect of Some name \<Rightarrow> get_attr K (strip (debug st) rsp) name
                | None \<Rightarrow> PNone,
                (pushed K st c as)\<lparr>listeners := (listeners st)(fst (nonce st) := None)\<rparr>))"
proof -
  have push: "nlm_push K
      ((snd (nonce st))\<lparr>listeners := (listeners st)(fst (nonce st) \<mapsto> Queue QUEUE_MAXSIZE)\<rparr>)
      (mgmtmsg c as) (Some (NLMSG_CONTROL K)) (Some 0) (Some 1)
      (case None of None \<Rightarrow> default_realm st
       | Some r \<Rightarrow> if r = 0 then default_realm st else r)
      (fst (nonce st)) = Inr (pushed K st c as)"
    unfolding pushed_def by (simp add: nlm_push_def mgmtmsg_def Let_def)
  have "nlm_request K st (mgmtmsg c as) (Some (NLMSG_CONTROL K)) (Some 0) (Some 1) None
          (map Some [] @ [Some rsp]) =
        Some (Inr (map (strip (debug st)) ([] @ (if type hr \<noteq> NLMSG_DONE K then [rsp] else [])),
                   (pushed K st c as)\<lparr>listeners := (listeners st)(fst (nonce st) := None)\<rparr>))"
    using nz push by (rule nlm_request_collect) (simp_all add: rsp QUEUE_MAXSIZE_def)
  then have r: "nlm_request K st (mgmtmsg c as) (Some (NLMSG_CONTROL K)) (Some 0) (Some 1) None
          [Some rsp] =
        Some (Inr ([strip (debug st) rsp],
                   (pushed K st c as)\<lparr>listeners := (listeners st)(fst (nonce st) := None)\<rparr>))"
    using rsp(3) by simp
  have "cmd (strip (debug st) rsp) = Some (IPRCMD_ACK K)"
    using rsp(5) by (simp add: strip_def)
  then show ?thesis
    by (simp add: command_def r split: option.splits)
qed

lemma monitor_on_first:
  assumes "cid st = PNone" and nz: "0 \<le> p_nonce st"
    and rsp: "header rsp = Some hr" "error hr = None" "type hr \<noteq> NLMSG_DONE K"
      "flags hr AND NLM_F_MULTI K = 0" "cmd rsp = Some (IPRCMD_ACK K)"
  shows "\<exists>st'. monitor K st True [Some rsp] = Some (Inr ((), st'))
      \<and> listeners st' 0 = Some (Queue QUEUE_MAXSIZE)
      \<and> cid st' = get_attr K (strip (debug st) rsp) ''IPR_ATTR_CID''
      \<and> p_nonce st' = fst (nonce st)"
proof -
  let ?st1 = "st\<lparr>listeners := (listeners st)(0 \<mapsto> Queue QUEUE_MAXSIZE)\<rparr>"
  have nz1: "0 \<le> p_nonce ?st1" using nz by simp
  have n0: "fst (nonce ?st1) \<noteq> 0" using nonce_positive [OF nz1] by simp
  have n1: "fst (nonce ?st1) = fst (nonce st)" by (simp add: nonce_def Let_def)
  note c = command_ack [OF nz1 rsp, of "IPRCMD_SUBSCRIBE K"
      "[(''IPR_ATTR_KEY'', PDict [(''offset'', PInt 8), (''key'', PInt 0), (''mask'', PInt 0)])]"
      "Some ''IPR_ATTR_CID''"]
  show ?thesis
    using assms(1) n0 by (simp add: monitor_def c pushed_fields n1)
qed

lemma monitor_on_again:
  assumes "cid st \<noteq> PNone" and nz: "0 \<le> p_nonce st" and "listeners st 0 \<noteq> None"
    and rsp: "header rsp = Some hr" "error hr = None" "type hr \<noteq> NLMSG_DONE K"
      "flags hr AND NLM_F_MULTI K = 0" "cmd rsp = Some (IPRCMD_ACK K)"
  shows "\<exists>st'. monitor K st True [Some rsp] = Some (Inr ((), st'))
      \<and> listeners st' 0 = None \<and> cid st' = PNone"
proof -
  have n0: "fst (nonce st) \<noteq> 0" using nonce_positive [OF nz] by simp
  note c = command_ack [OF nz rsp, of "IPRCMD_UNSUBSCRIBE K" "[(''IPR_ATTR_CID'', cid st)]" None]
  show ?thesis
    using assms(1,3) n0 by (simp add: monitor_def c Let_def)
qed

text \<open>A dump request answered by one \<^verbatim>\<open>MULTI\<close> message and a \<^verbatim>\<open>DONE\<close>: the call returns
  the message and key 1 is gone from the registry.\<close>

theorem nlm_request_removes_listener_witness:
  "map_option (map_sum fst (\<lambda>(r, s). (r, listeners s 1)))
     (nlm_request sample (init False ()) (reply 0 0 0 None) (Some 18) (Some 769) (Some 0) None
        [Some (reply 16 2 1 None), Some (reply 3 2 1 None)])
   = Some (Inr ([(reply 16 2 1 None)\<lparr>header := None\<rparr>], None))"
proof -
  let ?st = "init False () :: unit netlink"
  let ?st2 = "(snd (nonce ?st))\<lparr>listeners := (listeners ?st)(fst (nonce ?st) \<mapsto> Queue QUEUE_MAXSIZE)\<rparr>"
  let ?st3 = "projr (nlm_push sample ?st2 (reply 0 0 0 None) (Some 18) (Some 769) (Some 0)
      (case None of None \<Rightarrow> default_realm ?st | Some r \<Rightarrow> if r = 0 then default_realm ?st else r)
      (fst (nonce ?st)))"
  have nz: "0 \<le> p_nonce ?st" by (simp add: init_def)
  have push: "nlm_push sample ?st2 (reply 0 0 0 None) (Some 18) (Some 769) (Some 0)
      (case None of None \<Rightarrow> default_realm ?st | Some r \<Rightarrow> if r = 0 then default_realm ?st else r)
      (fst (nonce ?st)) = Inr ?st3"
    by (rule nlm_push_ok) (simp add: reply_def)
  have "nlm_request sample ?st (reply 0 0 0 None) (Some 18) (Some 769) (Some 0) None
      (map Some [reply 16 2 1 None] @ [Some (reply 3 2 1 None)]) =
    Some (Inr (map (strip (debug ?st))
       ([reply 16 2 1 None] @
        (if type \<lparr>type = 3, flags = 2, sequence_number = 1, pid = 0, error = None\<rparr>
            \<noteq> NLMSG_DONE sample then [reply 3 2 1 None] else [])),
       ?st3\<lparr>listeners := (listeners ?st)(fst (nonce ?st) := None)\<rparr>))"
    using nz push
    by (rule nlm_request_collect)
      (simp_all add: reply_def continuing_def sample_def QUEUE_MAXSIZE_def)
  then have eq: "nlm_request sample ?st (reply 0 0 0 None) (Some 18) (Some 769) (Some 0) None
      [Some (reply 16 2 1 None), Some (reply 3 2 1 None)] =
    Some (Inr ([(reply 16 2 1 None)\<lparr>header := None\<rparr>],
       ?st3\<lparr>listeners := (listeners ?st)(fst (nonce ?st) := None)\<rparr>))"
    by (simp add: sample_def strip_def init_def)
  from nlm_request_removes_listener [OF nz eq]
  show ?thesis unfolding eq by (simp add: init_def nonce_def Let_def)
qed

section \<open>\<^verbatim>\<open>monitor\<close>: the broadcast queue\<close>

text \<open>
  C3 at its failing input. Monitoring is switched on from the initial state: key 0 is
  registered and the channel id is recorded. A second \<^verbatim>\<open>monitor(True)\<close>, acknowledged
  by the peer, takes the \<^verbatim>\<open>else\<close> branch because \<^verbatim>\<open>self.cid\<close> is no longer
  \<^verbatim>\<open>None\<close>: it unsubscribes and deletes key 0.
\<close>

theorem monitor_on_twice:
  "\<exists>s1 s2.
     monitor sample (init False ()) True [Some (ack sample [(''IPR_ATTR_CID'', PInt 7)])]
       = Some (Inr ((), s1))
     \<and> listeners s1 0 \<noteq> None
     \<and> monitor sample s1 True [Some (ack sample [])] = Some (Inr ((), s2))
     \<and> listeners s2 0 = None"
proof -
  let ?a = "ack sample [(''IPR_ATTR_CID'', PInt 7)]"
  have "\<exists>st'. monitor sample (init False ()) True [Some ?a] = Some (Inr ((), st'))
      \<and> listeners st' 0 = Some (Queue QUEUE_MAXSIZE)
      \<and> cid st' = get_attr sample (strip (debug (init False ())) ?a) ''IPR_ATTR_CID''
      \<and> p_nonce st' = fst (nonce (init False ()))"
    by (rule monitor_on_first [where hr = "\<lparr>type = NLMSG_CONTROL sample, flags = 0,
          sequence_number = 0, pid = 0, error = None\<rparr>"])
      (simp_all add: init_def ack_def sample_def)
  then obtain s1 where s1: "monitor sample (init False ()) True [Some ?a] = Some (Inr ((), s1))"
    "listeners s1 0 = Some (Queue QUEUE_MAXSIZE)" "cid s1 = PInt 7" "p_nonce s1 = 1"
    by (auto simp: sample_def sample_get_attr_def strip_def ack_def init_def nonce_def Let_def)
  have "\<exists>st'. monitor sample s1 True [Some (ack sample [])] = Some (Inr ((), st'))
      \<and> listeners st' 0 = None \<and> cid st' = PNone"
    by (rule monitor_on_again [where hr = "\<lparr>type = NLMSG_CONTROL sample, flags = 0,
          sequence_number = 0, pid = 0, error = None\<rparr>"])
      (simp_all add: s1 ack_def sample_def)
  with s1 show ?thesis by auto
qed

section \<open>Reassembler: the walk over a buffer\<close>

lemma reasm_walk_short_prefix:
  assumes "offset < length buf" and "length buf < offset + 8"
  shows "reasm_walk K st buf offset = Some (Inl (StructError, st))"
proof -
  have "length (take 8 (drop offset buf)) \<noteq> 8" using assms by simp
  then have "unpack_IHH (take 8 (drop offset buf)) = Inl StructError"
    by (simp add: unpack_IHH_def)
  then show ?thesis using assms(1) by (subst reasm_walk.simps) simp
qed

lemma reasm_walk_end:
  "length buf \<le> offset \<Longrightarrow> reasm_walk K st buf offset = Some (Inr (None, st))"
  by (subst reasm_walk.simps) simp

lemma reasm_walk_carry:
  assumes "offset < length buf"
    and "unpack_IHH (take 8 (drop offset buf)) = Inr (len, mtype, fl)"
    and "length buf < offset + len"
  shows "reasm_walk K st buf offset = Some (Inr (Some (drop offset buf), st))"
  using assms by (subst reasm_walk.simps) simp

lemma reasm_walk_step:
  assumes "offset < length buf"
    and "unpack_IHH (take 8 (drop offset buf)) = Inr (len, mtype, fl)"
    and "offset + len \<le> length buf"
  shows "reasm_walk K st buf offset =
     (case dispatch K (st\<lparr>emitted := emitted st @ [take len (drop offset buf)]\<rparr>)
             (take len (drop offset buf)) fl of
        Inl ex \<Rightarrow> Some (Inl ex)
      | Inr (buf', st') \<Rightarrow> reasm_walk K st' buf' (offset + len))"
  using assms by (subst reasm_walk.simps) (simp add: Let_def)

lemma reasm_walk_first_only:
  assumes "buf \<noteq> []"
    and "unpack_IHH (take 8 buf) = Inr (len, mtype, fl)"
    and "len \<le> length buf"
    and "dispatch K (st\<lparr>emitted := emitted st @ [take len buf]\<rparr>) (take len buf) fl
         = Inr (buf', st')"
    and "length buf' \<le> len"
  shows "reasm_walk K st buf 0 = Some (Inr (None, st'))"
proof -
  have "reasm_walk K st buf 0 = reasm_walk K st' buf' (0 + len)"
    using assms(1-4) by (subst reasm_walk_step [where len = len and mtype = mtype and fl = fl]) simp_all
  also have "\<dots> = Some (Inr (None, st'))"
    using assms(5) by (intro reasm_walk_end) simp
  finally show ?thesis .
qed

lemma le_nat_simps:
  "le_nat [] = 0" "le_nat (b # bs) = unat b + 256 * le_nat bs"
  by (simp_all add: le_nat_def)

lemma unpack_envelope44: "unpack_IHH (take 8 (envelope44 @ bs)) = Inr (44, 15, 0)"
  by (simp add: unpack_IHH_def envelope44_def le_nat_simps)

lemma dispatch_envelope44:
  "dispatch sample ((init False w)\<lparr>emitted := [envelope44]\<rparr>) envelope44 0
   = Inr (drop 28 envelope44, (init False w)\<lparr>emitted := [envelope44]\<rparr>)"
  by (simp add: dispatch_def sample_def sample_envmsg_decode_def envelope44_def le_nat_simps
      parse_def sample_marshal_parse_def parse_nlhdr_def init_def enqueue_def Let_def)

text \<open>
  C8 at its failing input: a first blob of 4 bytes. At offset 0 fewer than 8 bytes remain,
  \<^verbatim>\<open>struct.unpack('IHH', buf.read(8))\<close> raises \<^verbatim>\<open>struct.error\<close>, nothing catches it,
  and the reassembly thread ends: no carry is kept (\<open>reasm_walk_short_prefix\<close> is the
  general fact).
\<close>

theorem short_prefix_raises:
  "feed_buffers sample (init False ()) None [[40, 0, 0, 0]]
   = Some (Inl (StructError, init False ()))"
  by (simp add: reasm_walk_short_prefix init_def)

text \<open>
  C1 at its failing input: one blob holds a complete envelope of 44 bytes followed by the
  first 24 bytes of an envelope that declares 40. After the first envelope the variable
  \<^verbatim>\<open>buf\<close> is bound to the CDATA buffer of 16 bytes, so the test
  \<^verbatim>\<open>offset < buf.length\<close> fails at offset 44 and the walk ends: the carry is
  \<^verbatim>\<open>None\<close>, the 24 bytes are lost (\<open>reasm_walk_first_only\<close> is the general fact).
\<close>

theorem tail_after_envelope_dropped:
  "feed_buffers sample (init False ()) None [envelope44 @ take 24 envelope40]
   = Some (Inr (None, (init False ())\<lparr>emitted := [envelope44]\<rparr>))"
proof -
  let ?buf = "envelope44 @ take 24 envelope40"
  have t: "take 44 ?buf = envelope44" by (simp add: envelope44_def)
  have "reasm_walk sample (init False ()) ?buf 0
      = Some (Inr (None, (init False ())\<lparr>emitted := [envelope44]\<rparr>))"
  proof (rule reasm_walk_first_only [where len = 44 and mtype = 15 and fl = 0
        and buf' = "drop 28 envelope44"])
    show "?buf \<noteq> []" by (simp add: envelope44_def)
    show "unpack_IHH (take 8 ?buf) = Inr (44, 15, 0)" by (rule unpack_envelope44)
    show "44 \<le> length ?buf" by (simp add: envelope44_def)
    show "dispatch sample ((init False ())\<lparr>emitted := emitted (init False ()) @ [take 44 ?buf]\<rparr>)
        (take 44 ?buf) 0
        = Inr (drop 28 envelope44, (init False ())\<lparr>emitted := [envelope44]\<rparr>)"
      unfolding t using dispatch_envelope44 [of "()"] by (simp add: init_def)
    show "length (drop 28 envelope44) \<le> 44" by (simp add: envelope44_def)
  qed
  then show ?thesis by (simp add: init_def)
qed

text \<open>
  At offset 0 the carry-over works (\<open>reasm_walk_carry\<close>): an envelope of 40 bytes that
  arrives as 24 + 16 bytes is not emitted after the first blob, which becomes the carry,
  and is emitted once after the second.
\<close>

lemma unpack_envelope40: "unpack_IHH (take 8 (take 24 envelope40 @ bs)) = Inr (40, 15, 0)"
  by (simp add: unpack_IHH_def envelope40_def le_nat_simps)

lemma dispatch_envelope40:
  "dispatch sample ((init False w)\<lparr>emitted := [envelope40]\<rparr>) envelope40 0
   = Inr (drop 28 envelope40, (init False w)\<lparr>emitted := [envelope40]\<rparr>)"
  by (simp add: dispatch_def sample_def sample_envmsg_decode_def envelope40_def le_nat_simps
      parse_def sample_marshal_parse_def init_def)

lemma fragmented_framing:
  "feed_buffers sample (init False ()) None [take 24 envelope40]
     = Some (Inr (Some (take 24 envelope40), init False ()))"
  "feed_buffers sample (init False ()) None [take 24 envelope40, drop 24 envelope40]
     = Some (Inr (None, (init False ())\<lparr>emitted := [envelope40]\<rparr>))"
proof -
  have w1: "reasm_walk sample (init False ()) (take 24 envelope40) 0
      = Some (Inr (Some (drop 0 (take 24 envelope40)), init False ()))"
  proof (rule reasm_walk_carry [where len = 40 and mtype = 15 and fl = 0])
    show "0 < length (take 24 envelope40)" by (simp add: envelope40_def)
    show "unpack_IHH (take 8 (drop 0 (take 24 envelope40))) = Inr (40, 15, 0)"
      using unpack_envelope40 [of "[]"] by simp
    show "length (take 24 envelope40) < 0 + 40" by (simp add: envelope40_def)
  qed
  have j: "take 24 envelope40 @ drop 24 envelope40 = envelope40" by simp
  have w2: "reasm_walk sample (init False ()) envelope40 0
      = Some (Inr (None, (init False ())\<lparr>emitted := [envelope40]\<rparr>))"
  proof (rule reasm_walk_first_only [where len = 40 and mtype = 15 and fl = 0
        and buf' = "drop 28 envelope40"])
    show "envelope40 \<noteq> []" by (simp add: envelope40_def)
    show "unpack_IHH (take 8 envelope40) = Inr (40, 15, 0)"
      using unpack_envelope40 [of "drop 24 envelope40"] by (simp only: j)
    show "40 \<le> length envelope40" by (simp add: envelope40_def)
    have t: "take 40 envelope40 = envelope40" by (simp add: envelope40_def)
    show "dispatch sample ((init False ())\<lparr>emitted := emitted (init False ()) @ [take 40 envelope40]\<rparr>)
        (take 40 envelope40) 0
        = Inr (drop 28 envelope40, (init False ())\<lparr>emitted := [envelope40]\<rparr>)"
      unfolding t using dispatch_envelope40 [of "()"] by (simp add: init_def)
    show "length (drop 28 envelope40) \<le> 40" by (simp add: envelope40_def)
  qed
  have ns: "\<not> p_stop_event (init False ())" by (simp add: init_def)
  show "feed_buffers sample (init False ()) None [take 24 envelope40]
     = Some (Inr (Some (take 24 envelope40), init False ()))"
    using w1 ns by simp
  show "feed_buffers sample (init False ()) None [take 24 envelope40, drop 24 envelope40]
     = Some (Inr (None, (init False ())\<lparr>emitted := [envelope40]\<rparr>))"
    using w1 w2 ns by (simp add: j)
qed

section \<open>Callback chain: exceptions\<close>
















end
